theory Spec2Isabelle
  imports Complex_Main "HOL-Library.Char_ord" "HOL-Library.List_Lexorder" "HOL-Library.Product_Lexorder"
begin

section \<open>Values received from the World Bank API\<close>

text \<open>
  \<^verbatim>\<open>resp.json()\<close> yields a Python object built from \<^verbatim>\<open>None\<close>, \<^verbatim>\<open>bool\<close>, \<^verbatim>\<open>int\<close>,
  \<^verbatim>\<open>float\<close>, \<^verbatim>\<open>str\<close>, \<^verbatim>\<open>list\<close> and \<^verbatim>\<open>dict\<close>. Floats are idealised as reals
  (no rounding, no NaN inside a payload); a string is a list of characters with code
  points below 256; a dict is an association list read with \<open>map_of\<close>.
\<close>

datatype json =
    JNull
  | JBool bool
  | JInt int
  | JReal real
  | JStr string
  | JList "json list"
  | JObj "(string \<times> json) list"

text \<open>
  The exceptions the data layer can raise: \<^verbatim>\<open>RuntimeError\<close> is the one the source raises
  itself (status code and the first 200 characters of the body); the others come from
  \<^verbatim>\<open>requests.get\<close>, \<^verbatim>\<open>resp.json()\<close>, tuple unpacking, \<^verbatim>\<open>int()\<close>, comparisons and
  attribute access. All of them are subclasses of \<^verbatim>\<open>Exception\<close>.
\<close>

datatype error =
    RuntimeError int string
  | RequestException
  | JSONDecodeError
  | ValueError
  | TypeError
  | AttributeError

text \<open>What \<^verbatim>\<open>requests.get\<close> gives: an exception, or a response with its status code, its
  text and, when the text is JSON, the decoded payload.\<close>

datatype response =
    NoResponse
  | Response int string "json option"

text \<open>The remote service: the answer to the request issued at a given time (the number of
  requests issued before it) for a country, an indicator and a page number.\<close>

type_synonym network = "nat \<Rightarrow> string \<Rightarrow> string \<Rightarrow> nat \<Rightarrow> response"

subsection \<open>Python operations on these values\<close>

text \<open>\<^verbatim>\<open>bool(v)\<close>, as \<^verbatim>\<open>not rows\<close> and \<^verbatim>\<open>r.get("date") and ...\<close> use it.\<close>

fun truthy :: "json \<Rightarrow> bool" where
  "truthy JNull = False"
| "truthy (JBool b) = b"
| "truthy (JInt i) = (i \<noteq> 0)"
| "truthy (JReal r) = (r \<noteq> 0)"
| "truthy (JStr s) = (s \<noteq> [])"
| "truthy (JList xs) = (xs \<noteq> [])"
| "truthy (JObj kv) = (kv \<noteq> [])"

text \<open>The keys of a dict in insertion order.\<close>

definition dict_keys :: "(string \<times> json) list \<Rightarrow> string list" where
  "dict_keys kv = rev (remdups (rev (map fst kv)))"

text \<open>Iterating a value, as \<^verbatim>\<open>all_rows.extend(rows)\<close> does: a list gives its elements, a
  string its characters, a dict its keys; anything else is not iterable.\<close>

fun py_iter :: "json \<Rightarrow> error + json list" where
  "py_iter (JList xs) = Inr xs"
| "py_iter (JStr s) = Inr (map (\<lambda>c. JStr [c]) s)"
| "py_iter (JObj kv) = Inr (map JStr (dict_keys kv))"
| "py_iter v = Inl TypeError"

text \<open>\<^verbatim>\<open>v.get(key, default)\<close>: only a dict has the method.\<close>

fun py_get :: "json \<Rightarrow> string \<Rightarrow> json \<Rightarrow> error + json" where
  "py_get (JObj kv) k d = Inr (case map_of kv k of None \<Rightarrow> d | Some v \<Rightarrow> v)"
| "py_get v k d = Inl AttributeError"

text \<open>The numeric reading of a value: \<^verbatim>\<open>bool\<close>, \<^verbatim>\<open>int\<close> and \<^verbatim>\<open>float\<close> compare with each
  other by value.\<close>

fun py_num :: "json \<Rightarrow> real option" where
  "py_num (JBool b) = Some (if b then 1 else 0)"
| "py_num (JInt i) = Some (of_int i)"
| "py_num (JReal r) = Some r"
| "py_num v = None"

lemma map_of_size [termination_simp]:
  "map_of p k = Some v \<Longrightarrow> size (v::json) < Suc (size_list (\<lambda>x. Suc (size (snd x))) p)"
  by (induction p) (auto split: if_splits)

text \<open>\<^verbatim>\<open>a == b\<close>.\<close>

fun py_eq :: "json \<Rightarrow> json \<Rightarrow> bool" where
  "py_eq (JList xs) (JList ys) = list_all2 py_eq xs ys"
| "py_eq (JObj p) (JObj q) =
     list_all (\<lambda>k. case map_of p k of None \<Rightarrow> False
                 | Some v \<Rightarrow> (case map_of q k of None \<Rightarrow> False | Some w \<Rightarrow> py_eq v w))
       (map fst p @ map fst q)"
| "py_eq JNull JNull = True"
| "py_eq (JStr s) (JStr t) = (s = t)"
| "py_eq a b = (case py_num a of None \<Rightarrow> False
                | Some x \<Rightarrow> (case py_num b of None \<Rightarrow> False | Some y \<Rightarrow> x = y))"

text \<open>\<^verbatim>\<open>s >= t\<close> on strings: lexicographic, by code point.\<close>

fun str_ge :: "string \<Rightarrow> string \<Rightarrow> bool" where
  "str_ge s [] = True"
| "str_ge [] (b # t) = False"
| "str_ge (a # s) (b # t) = (if a = b then str_ge s t else (of_char b :: nat) < of_char a)"

text \<open>\<^verbatim>\<open>a >= b\<close>: numbers by value, strings and lists lexicographically (a list by its
  first pair of unequal elements); every other pairing raises \<^verbatim>\<open>TypeError\<close>, in
  particular any comparison with \<^verbatim>\<open>None\<close>.\<close>

fun py_ge :: "json \<Rightarrow> json \<Rightarrow> error + bool"
  and list_ge :: "json list \<Rightarrow> json list \<Rightarrow> error + bool" where
  "py_ge (JStr s) (JStr t) = Inr (str_ge s t)"
| "py_ge (JList xs) (JList ys) = list_ge xs ys"
| "py_ge a b = (case py_num a of None \<Rightarrow> Inl TypeError
                | Some x \<Rightarrow> (case py_num b of None \<Rightarrow> Inl TypeError | Some y \<Rightarrow> Inr (y \<le> x)))"
| "list_ge xs [] = Inr True"
| "list_ge [] (y # ys) = Inr False"
| "list_ge (x # xs) (y # ys) = (if py_eq x y then list_ge xs ys else py_ge x y)"

section \<open>The page loop of \<^verbatim>\<open>wb_fetch_series\<close>\<close>

text \<open>\<^verbatim>\<open>meta.get("page") >= meta.get("pages", 1)\<close>: a missing \<^verbatim>\<open>page\<close> is \<^verbatim>\<open>None\<close>, a
  missing \<^verbatim>\<open>pages\<close> is 1.\<close>

definition last_page :: "json \<Rightarrow> error + bool" where
  "last_page meta =
     (case py_get meta ''page'' JNull of
        Inl e \<Rightarrow> Inl e
      | Inr p \<Rightarrow> (case py_get meta ''pages'' (JInt 1) of
                    Inl e \<Rightarrow> Inl e
                  | Inr ps \<Rightarrow> py_ge p ps))"

text \<open>
  One pass through the body of the \<^verbatim>\<open>while True\<close> loop, from the response to the
  request for the current page: the loop is left by \<^verbatim>\<open>raise\<close> or \<^verbatim>\<open>break\<close> with the
  rows accumulated (\<open>Leave\<close>), or goes on to the next page with more rows (\<open>Next\<close>).
\<close>

datatype pass = Leave "error + json list" | Next "json list"

definition loop_body :: "response \<Rightarrow> json list \<Rightarrow> pass" where
  "loop_body resp all_rows =
     (case resp of
        NoResponse \<Rightarrow> Leave (Inl RequestException)
      | Response status_code txt body \<Rightarrow>
          if status_code \<noteq> 200 then Leave (Inl (RuntimeError status_code (take 200 txt)))
          else (case body of
             None \<Rightarrow> Leave (Inl JSONDecodeError)
           | Some payload \<Rightarrow>
               (case payload of
                  JList items \<Rightarrow>
                    if length items < 2 then Leave (Inr all_rows)
                    else (case items of
                       [meta, rows] \<Rightarrow>
                         if \<not> truthy rows then Leave (Inr all_rows)
                         else (case py_iter rows of
                            Inl e \<Rightarrow> Leave (Inl e)
                          | Inr rs \<Rightarrow>
                              (case last_page meta of
                                 Inl e \<Rightarrow> Leave (Inl e)
                               | Inr True \<Rightarrow> Leave (Inr (all_rows @ rs))
                               | Inr False \<Rightarrow> Next (all_rows @ rs)))
                     | _ \<Rightarrow> Leave (Inl ValueError))
                | _ \<Rightarrow> Leave (Inr all_rows))))"

text \<open>
  The loop. \<open>page\<close> and \<open>all_rows\<close> are its variables; \<open>t\<close> counts the requests issued
  so far, so the result carries the count after the last request and the number of
  iterations is the count's advance. A loop that never leaves is \<open>None\<close>. The
  \<^verbatim>\<open>time.sleep(0.05)\<close> between pages has no counterpart here.
\<close>

partial_function (option) fetch_pages ::
  "network \<Rightarrow> string \<Rightarrow> string \<Rightarrow> nat \<Rightarrow> json list \<Rightarrow> nat \<Rightarrow> ((error + json list) \<times> nat) option"
where
  "fetch_pages net c ind page all_rows t =
     (case loop_body (net t c ind page) all_rows of
        Leave res \<Rightarrow> Some (res, Suc t)
      | Next rows \<Rightarrow> fetch_pages net c ind (Suc page) rows (Suc t))"

declare fetch_pages.simps [code]


section \<open>From rows to a frame\<close>

text \<open>
  A row of a frame with the columns \<^verbatim>\<open>country\<close>, \<^verbatim>\<open>countryiso3code\<close>, \<^verbatim>\<open>indicator\<close>,
  \<^verbatim>\<open>date\<close> and \<^verbatim>\<open>value\<close> (the last is named \<open>val\<close> here). The types of the label, date
  and value columns change along the pipeline, so they are parameters.
\<close>

record ('l, 'd, 'v) row =
  country :: 'l
  countryiso3code :: 'l
  indicator :: 'l
  date :: 'd
  val :: 'v

text \<open>A float cell of a frame: pandas marks a missing number by NaN. Infinities are not
  represented.\<close>

datatype float64 = NaN | Num real

text \<open>
  \<^verbatim>\<open>ch.isdigit()\<close> for a character below 256: the ASCII digits and the superscript digits
  (code points 178, 179 and 185), which Python counts as digits too.
\<close>

definition isdigit_char :: "char \<Rightarrow> bool" where
  "isdigit_char ch =
     (let n = (of_char ch :: nat) in (48 \<le> n \<and> n \<le> 57) \<or> n = 178 \<or> n = 179 \<or> n = 185)"

definition ascii_digit :: "char \<Rightarrow> bool" where
  "ascii_digit ch = (let n = (of_char ch :: nat) in 48 \<le> n \<and> n \<le> 57)"

text \<open>
  \<^verbatim>\<open>str(v).isdigit()\<close>. The text of an \<^verbatim>\<open>int\<close> is made of digits exactly when the number
  is not negative; the text of \<^verbatim>\<open>None\<close>, of a \<^verbatim>\<open>bool\<close>, of a \<^verbatim>\<open>float\<close> (it holds a
  point, an exponent, \<^verbatim>\<open>inf\<close> or \<^verbatim>\<open>nan\<close>), of a list and of a dict never is.
\<close>

fun str_isdigit :: "json \<Rightarrow> bool" where
  "str_isdigit (JStr s) = (s \<noteq> [] \<and> list_all isdigit_char s)"
| "str_isdigit (JInt i) = (0 \<le> i)"
| "str_isdigit v = False"

definition decimal :: "string \<Rightarrow> int" where
  "decimal s = foldl (\<lambda>a ch. 10 * a + (int (of_char ch) - 48)) 0 s"

text \<open>
  \<^verbatim>\<open>int(v)\<close>, for the values the source converts: those with \<^verbatim>\<open>str(v).isdigit()\<close>. On a
  string of such characters \<^verbatim>\<open>int\<close> raises \<^verbatim>\<open>ValueError\<close> unless every character is a
  decimal digit, which a superscript digit is not.
\<close>

fun py_int :: "json \<Rightarrow> error + int" where
  "py_int (JStr s) = (if s \<noteq> [] \<and> list_all ascii_digit s then Inr (decimal s) else Inl ValueError)"
| "py_int (JInt i) = Inr i"
| "py_int (JBool b) = Inr (if b then 1 else 0)"
| "py_int (JReal r) = Inr (if 0 \<le> r then \<lfloor>r\<rfloor> else \<lceil>r\<rceil>)"
| "py_int v = Inl TypeError"

text \<open>\<^verbatim>\<open>int(r.get("date")) if r.get("date") and str(r.get("date")).isdigit() else None\<close>\<close>

definition date_cell :: "json \<Rightarrow> error + int option" where
  "date_cell d =
     (if truthy d \<and> str_isdigit d
      then (case py_int d of Inl e \<Rightarrow> Inl e | Inr i \<Rightarrow> Inr (Some i))
      else Inr None)"

text \<open>The dict the list comprehension builds from one element of \<^verbatim>\<open>all_rows\<close>; its entries
  are evaluated in the order written, and the first exception ends the comprehension.\<close>

definition make_record :: "json \<Rightarrow> error + (json, int option, json) row" where
  "make_record r =
     (case py_get r ''country'' (JObj []) of Inl e \<Rightarrow> Inl e | Inr cd \<Rightarrow>
      case py_get cd ''value'' JNull of Inl e \<Rightarrow> Inl e | Inr cn \<Rightarrow>
      case py_get r ''countryiso3code'' JNull of Inl e \<Rightarrow> Inl e | Inr iso3 \<Rightarrow>
      case py_get r ''indicator'' (JObj []) of Inl e \<Rightarrow> Inl e | Inr idd \<Rightarrow>
      case py_get idd ''id'' JNull of Inl e \<Rightarrow> Inl e | Inr iid \<Rightarrow>
      case py_get r ''date'' JNull of Inl e \<Rightarrow> Inl e | Inr d \<Rightarrow>
      case date_cell d of Inl e \<Rightarrow> Inl e | Inr dt \<Rightarrow>
      case py_get r ''value'' JNull of Inl e \<Rightarrow> Inl e | Inr v \<Rightarrow>
        Inr \<lparr>country = cn, countryiso3code = iso3, indicator = iid, date = dt, val = v\<rparr>)"

fun from_records :: "json list \<Rightarrow> error + (json, int option, json) row list" where
  "from_records [] = Inr []"
| "from_records (r # rs) =
     (case make_record r of
        Inl e \<Rightarrow> Inl e
      | Inr x \<Rightarrow> (case from_records rs of Inl e \<Rightarrow> Inl e | Inr xs \<Rightarrow> Inr (x # xs)))"

text \<open>\<^verbatim>\<open>df.dropna(subset=["date"])\<close>\<close>

fun dropna_date :: "('l, int option, 'v) row list \<Rightarrow> ('l, int, 'v) row list" where
  "dropna_date [] = []"
| "dropna_date (r # rs) =
     (case date r of
        None \<Rightarrow> dropna_date rs
      | Some d \<Rightarrow> \<lparr>country = country r, countryiso3code = countryiso3code r,
                   indicator = indicator r, date = d, val = val r\<rparr> # dropna_date rs)"

text \<open>\<^verbatim>\<open>df.sort_values("date")\<close>. pandas does not fix the order of rows of the same year;
  here they keep their order.\<close>

definition sort_values_date :: "('l, int, 'v) row list \<Rightarrow> ('l, int, 'v) row list" where
  "sort_values_date df = sort_key date df"

text \<open>
  \<^verbatim>\<open>pd.to_numeric(x, errors="coerce")\<close> on one cell. How pandas reads a number from a
  string is not part of the repository: it is the parameter \<open>parse\<close>, with \<open>NaN\<close> for a
  string that is no number.
\<close>

fun to_numeric :: "(string \<Rightarrow> float64) \<Rightarrow> json \<Rightarrow> float64" where
  "to_numeric parse JNull = NaN"
| "to_numeric parse (JBool b) = Num (if b then 1 else 0)"
| "to_numeric parse (JInt i) = Num (of_int i)"
| "to_numeric parse (JReal x) = Num x"
| "to_numeric parse (JStr s) = parse s"
| "to_numeric parse (JList xs) = NaN"
| "to_numeric parse (JObj kv) = NaN"

definition to_numeric_value ::
  "(string \<Rightarrow> float64) \<Rightarrow> ('l, 'd, json) row list \<Rightarrow> ('l, 'd, float64) row list" where
  "to_numeric_value parse df =
     map (\<lambda>r. \<lparr>country = country r, countryiso3code = countryiso3code r,
               indicator = indicator r, date = date r, val = to_numeric parse (val r)\<rparr>) df"

type_synonym series_frame = "(json, int, float64) row list"

text \<open>The part of \<^verbatim>\<open>wb_fetch_series\<close> after the loop.\<close>

definition build_frame :: "(string \<Rightarrow> float64) \<Rightarrow> json list \<Rightarrow> error + series_frame" where
  "build_frame parse all_rows =
     (if all_rows = [] then Inr []
      else (case from_records all_rows of
              Inl e \<Rightarrow> Inl e
            | Inr df \<Rightarrow> Inr (to_numeric_value parse (sort_values_date (dropna_date df)))))"

section \<open>The cached fetch and the batch\<close>

text \<open>
  The state the data layer works on: the number of requests issued so far and the store
  of \<^verbatim>\<open>st.cache_data\<close> for \<^verbatim>\<open>wb_fetch_series\<close>, keyed by the arguments of the call.
\<close>

record world =
  clock :: nat
  cache :: "string \<times> string \<Rightarrow> series_frame option"

text \<open>The function as written, without its decorator. \<open>None\<close>: the loop never leaves.\<close>

definition wb_fetch_series_raw ::
  "(string \<Rightarrow> float64) \<Rightarrow> network \<Rightarrow> string \<Rightarrow> string \<Rightarrow> nat
     \<Rightarrow> ((error + series_frame) \<times> nat) option" where
  "wb_fetch_series_raw parse net country_iso3 ind t =
     (case fetch_pages net country_iso3 ind 1 [] t of
        None \<Rightarrow> None
      | Some (Inl e, t') \<Rightarrow> Some (Inl e, t')
      | Some (Inr all_rows, t') \<Rightarrow> Some (build_frame parse all_rows, t'))"

text \<open>
  The function under \<^verbatim>\<open>@st.cache_data\<close>: a stored result is returned without running the
  function; otherwise the function runs and its return value is stored. An exception
  passes through and nothing is stored.
\<close>

definition wb_fetch_series ::
  "(string \<Rightarrow> float64) \<Rightarrow> network \<Rightarrow> string \<Rightarrow> string \<Rightarrow> world
     \<Rightarrow> ((error + series_frame) \<times> world) option" where
  "wb_fetch_series parse net country_iso3 ind w =
     (case cache w (country_iso3, ind) of
        Some df \<Rightarrow> Some (Inr df, w)
      | None \<Rightarrow>
          (case wb_fetch_series_raw parse net country_iso3 ind (clock w) of
             None \<Rightarrow> None
           | Some (Inl e, t') \<Rightarrow> Some (Inl e, w\<lparr>clock := t'\<rparr>)
           | Some (Inr df, t') \<Rightarrow>
               Some (Inr df, w\<lparr>clock := t', cache := (cache w)((country_iso3, ind) \<mapsto> df)\<rparr>)))"

text \<open>
  The loops of \<^verbatim>\<open>wb_fetch_multi\<close>. Their state: the frames collected, the warnings shown
  by \<^verbatim>\<open>st.warning\<close> (the indicator, the country and the exception of the message) and the
  world. \<^verbatim>\<open>except Exception\<close> catches every exception of the data layer.
\<close>

type_synonym batch = "series_frame list \<times> (string \<times> string \<times> error) list \<times> world"

fun fetch_indicators ::
  "(string \<Rightarrow> float64) \<Rightarrow> network \<Rightarrow> string \<Rightarrow> string list \<Rightarrow> batch \<Rightarrow> batch option" where
  "fetch_indicators parse net c [] st = Some st"
| "fetch_indicators parse net c (ind # inds) (frames, warnings, w) =
     (case wb_fetch_series parse net c ind w of
        None \<Rightarrow> None
      | Some (Inr df, w') \<Rightarrow> fetch_indicators parse net c inds (frames @ [df], warnings, w')
      | Some (Inl e, w') \<Rightarrow> fetch_indicators parse net c inds (frames, warnings @ [(ind, c, e)], w'))"

fun fetch_countries ::
  "(string \<Rightarrow> float64) \<Rightarrow> network \<Rightarrow> string list \<Rightarrow> string list \<Rightarrow> batch \<Rightarrow> batch option" where
  "fetch_countries parse net [] indicators st = Some st"
| "fetch_countries parse net (c # cs) indicators st =
     (case fetch_indicators parse net c indicators st of
        None \<Rightarrow> None
      | Some st' \<Rightarrow> fetch_countries parse net cs indicators st')"

text \<open>\<^verbatim>\<open>wb_fetch_multi\<close>: the frame returned, the warnings shown and the world after the
  call. The cache around \<^verbatim>\<open>wb_fetch_multi\<close> itself, which only serves a repeated batch,
  is left out.\<close>

definition wb_fetch_multi ::
  "(string \<Rightarrow> float64) \<Rightarrow> network \<Rightarrow> string list \<Rightarrow> string list \<Rightarrow> world
     \<Rightarrow> (series_frame \<times> (string \<times> string \<times> error) list \<times> world) option" where
  "wb_fetch_multi parse net countries_iso3 indicators w =
     (case fetch_countries parse net countries_iso3 indicators ([], [], w) of
        None \<Rightarrow> None
      | Some (frames, warnings, w') \<Rightarrow>
          Some (if frames = [] then [] else concat frames, warnings, w'))"


section \<open>The dashboard's frame: year filter and normalisation\<close>

text \<open>
  From here on the label columns of a frame hold strings or \<^verbatim>\<open>None\<close>; frames with other
  JSON values as labels are outside this part of the model. The frame \<^verbatim>\<open>data\<close> is a list of
  rows; a column added to it is a list of the same length.
\<close>

type_synonym obs = "(string option, int, float64) row"

text \<open>\<^verbatim>\<open>name_map\<close>, from \<^verbatim>\<open>INDICATORS\<close>, and the column \<^verbatim>\<open>indicator_name\<close>, which
  \<^verbatim>\<open>data["indicator"].map(name_map)\<close> fills (NaN, here \<open>None\<close>, for a code that is no key).\<close>

definition name_map :: "string \<Rightarrow> string option" where
  "name_map = map_of [(''NY.GDP.MKTP.KD.ZG'', ''GDP growth''),
                      (''FP.CPI.TOTL.ZG'', ''Inflation, CPI''),
                      (''SL.UEM.TOTL.ZS'', ''Unemployment'')]"

definition indicator_name :: "obs \<Rightarrow> string option" where
  "indicator_name r = (case indicator r of None \<Rightarrow> None | Some k \<Rightarrow> name_map k)"

text \<open>\<^verbatim>\<open>mask = (data["date"] >= min_year) & (data["date"] <= max_year)\<close>, column by column,
  and \<^verbatim>\<open>data.loc[mask]\<close>.\<close>

definition year_mask :: "int \<Rightarrow> int \<Rightarrow> ('l, int, 'v) row list \<Rightarrow> bool list" where
  "year_mask min_year max_year data =
     map2 (\<and>) (map (\<lambda>d. min_year \<le> d) (map date data)) (map (\<lambda>d. d \<le> max_year) (map date data))"

definition loc_mask :: "bool list \<Rightarrow> 'a list \<Rightarrow> 'a list" where
  "loc_mask msk rows = map snd (filter fst (zip msk rows))"

definition filter_years :: "int \<Rightarrow> int \<Rightarrow> ('l, int, 'v) row list \<Rightarrow> ('l, int, 'v) row list" where
  "filter_years min_year max_year data = loc_mask (year_mask min_year max_year data) data"

text \<open>The numbers of a series, without its NaN cells.\<close>

fun present :: "float64 list \<Rightarrow> real list" where
  "present [] = []"
| "present (NaN # s) = present s"
| "present (Num x # s) = x # present s"

text \<open>\<^verbatim>\<open>s.mean()\<close>: over the cells that are not NaN; NaN when there is none.\<close>

definition series_mean :: "float64 list \<Rightarrow> float64" where
  "series_mean s =
     (let xs = present s in
      if xs = [] then NaN else Num (sum_list xs / real (length xs)))"

text \<open>\<^verbatim>\<open>s.std()\<close>: the sample standard deviation (one degree of freedom less than the count)
  of the cells that are not NaN; NaN when there are fewer than two.\<close>

definition series_std :: "float64 list \<Rightarrow> float64" where
  "series_std s =
     (let xs = present s; n = length xs in
      if n < 2 then NaN
      else (let m = sum_list xs / real n in
            Num (sqrt ((\<Sum>x\<leftarrow>xs. (x - m)\<^sup>2) / real (n - 1)))))"

text \<open>
  \<^verbatim>\<open>s.std() if s.std() not in (0, None) else 1\<close>. \<^verbatim>\<open>s.std()\<close> is a float: it equals 0 or it
  does not, and it is never the object \<^verbatim>\<open>None\<close>; NaN is neither equal to 0 nor \<^verbatim>\<open>None\<close>, so
  a NaN deviation is the divisor.
\<close>

definition divisor :: "float64 \<Rightarrow> float64" where
  "divisor sd = (case sd of NaN \<Rightarrow> NaN | Num d \<Rightarrow> if d = 0 then Num 1 else Num d)"

text \<open>Subtraction and division of float cells: NaN if an operand is. A division by zero,
  which this program never makes (see \<open>divisor\<close>), is NaN here.\<close>

fun fsub :: "float64 \<Rightarrow> float64 \<Rightarrow> float64" where
  "fsub (Num a) (Num b) = Num (a - b)"
| "fsub a b = NaN"

fun fdiv :: "float64 \<Rightarrow> float64 \<Rightarrow> float64" where
  "fdiv (Num a) (Num b) = (if b = 0 then NaN else Num (a / b))"
| "fdiv a b = NaN"

text \<open>\<^verbatim>\<open>lambda s: (s - s.mean()) / (s.std() if s.std() not in (0, None) else 1)\<close>\<close>

definition zscore :: "float64 list \<Rightarrow> float64 list" where
  "zscore s = map (\<lambda>v. fdiv (fsub v (series_mean s)) (divisor (series_std s))) s"

text \<open>
  \<^verbatim>\<open>data.groupby(["countryiso3code","indicator"])['value'].transform(f)\<close>: the rows with the
  same pair of labels form a group, in the order of the frame; \<open>f\<close> maps the values of a
  group to a series of the same length; each row gets the cell of that series at its place
  in its group. A row with \<^verbatim>\<open>None\<close> as a label is in no group and gets NaN.
\<close>

definition transform_groupby :: "(float64 list \<Rightarrow> float64 list) \<Rightarrow> obs list \<Rightarrow> float64 list" where
  "transform_groupby f data =
     map (\<lambda>i. let r = data ! i in
            if countryiso3code r = None \<or> indicator r = None then NaN
            else (let idx = filter (\<lambda>j. countryiso3code (data ! j) = countryiso3code r
                                        \<and> indicator (data ! j) = indicator r) [0..<length data];
                      out = f (map (\<lambda>j. val (data ! j)) idx)
                  in out ! length (filter (\<lambda>j. j < i) idx)))
       [0..<length data]"

text \<open>The column \<^verbatim>\<open>value_norm\<close>.\<close>

definition value_norm :: "obs list \<Rightarrow> float64 list" where
  "value_norm data = transform_groupby zscore data"

section \<open>The wide table and the correlation matrix\<close>

text \<open>\<^verbatim>\<open>ycol\<close>: the rows of \<^verbatim>\<open>data\<close>, each with its cell of the column charted.\<close>

definition with_ycol :: "bool \<Rightarrow> obs list \<Rightarrow> (obs \<times> float64) list" where
  "with_ycol normed data = zip data (if normed then value_norm data else map val data)"

text \<open>
  A table with the years as index and pairs (country, indicator name) as columns. \<open>cell\<close>
  gives the cell of a year of the index and a column of the table; it is NaN elsewhere.
\<close>

record wide =
  index :: "int list"
  columns :: "(string \<times> string) list"
  cell :: "int \<Rightarrow> string \<times> string \<Rightarrow> float64"

text \<open>
  \<^verbatim>\<open>df.pivot_table(index="date", columns=["country","indicator_name"], values=ycol)\<close> for
  \<^verbatim>\<open>df = data[data["indicator"]==ind]\<close>, in the steps of pandas. The rows are grouped by
  year, country and indicator name; a row with a missing label is in no group.
\<close>

definition keyed :: "string \<Rightarrow> (obs \<times> float64) list \<Rightarrow> ((int \<times> string \<times> string) \<times> float64) list" where
  "keyed ind df =
     concat (map (\<lambda>(r, y).
        if indicator r = Some ind
        then (case country r of
                None \<Rightarrow> []
              | Some cn \<Rightarrow> (case indicator_name r of None \<Rightarrow> [] | Some nm \<Rightarrow> [((date r, cn, nm), y)]))
        else []) df)"

text \<open>The aggregate of a group is the mean of its cells (\<^verbatim>\<open>aggfunc="mean"\<close>).\<close>

definition agg :: "('k \<times> float64) list \<Rightarrow> 'k \<Rightarrow> float64" where
  "agg kd k = series_mean (map snd (filter (\<lambda>p. fst p = k) kd))"

text \<open>\<^verbatim>\<open>dropna=True\<close>: a group whose aggregate is NaN is dropped before the table is built.\<close>

definition kept :: "('k \<times> float64) list \<Rightarrow> 'k list" where
  "kept kd = filter (\<lambda>k. agg kd k \<noteq> NaN) (remdups (map fst kd))"

definition pivot_table :: "((int \<times> string \<times> string) \<times> float64) list \<Rightarrow> wide" where
  "pivot_table kd =
     \<lparr>index = sort (remdups (map fst (kept kd))),
      columns = sort (remdups (map snd (kept kd))),
      cell = (\<lambda>d col. if (d, col) \<in> set (kept kd) then agg kd (d, col) else NaN)\<rparr>"

text \<open>
  \<^verbatim>\<open>pd.concat(wide_parts, axis=1)\<close>: the index is the union of the indexes (the first
  index, then the years new in each later one); the columns are those of the parts, one
  after the other; a cell of a column is the cell of its part, NaN for a year that the
  part does not have. The parts come from different indicators (the sidebar gives each
  code once), so a column label names one column.
\<close>

definition union_index :: "int list \<Rightarrow> int list \<Rightarrow> int list" where
  "union_index a b = a @ filter (\<lambda>d. d \<notin> set a) b"

definition concat_columns :: "wide list \<Rightarrow> wide" where
  "concat_columns parts =
     \<lparr>index = foldl union_index [] (map index parts),
      columns = concat (map columns parts),
      cell = (\<lambda>d col. case find (\<lambda>p. col \<in> set (columns p)) parts of
                         None \<Rightarrow> NaN
                       | Some p \<Rightarrow> if d \<in> set (index p) then cell p d col else NaN)\<rparr>"

text \<open>\<^verbatim>\<open>wide_all\<close>: \<open>None\<close> when \<^verbatim>\<open>wide_parts\<close> is empty.\<close>

definition wide_all :: "string list \<Rightarrow> (obs \<times> float64) list \<Rightarrow> wide option" where
  "wide_all indicator_codes df =
     (let wide_parts = map (\<lambda>ind. pivot_table (keyed ind df)) indicator_codes in
      if wide_parts = [] then None else Some (concat_columns wide_parts))"



text \<open>
  \<^verbatim>\<open>.round(2)\<close> rounds the float in a cell to two decimals: to a multiple of 1/100
  nearest to it. Which of two equally near multiples it takes depends on the digits of the
  float (a coefficient that is 7/8 as a real number is computed as a float just below 7/8
  and becomes 0.87), and a real number has no such digits. So the rounding is a relation
  here: \<open>rounds_to x y\<close> holds for every multiple \<open>y\<close> of 1/100 that is at most 1/200 away
  from \<open>x\<close>; NaN stays NaN.
\<close>

definition rounds_to :: "real \<Rightarrow> real \<Rightarrow> bool" where
  "rounds_to x y = (of_int \<lfloor>y * 100\<rfloor> = y * 100 \<and> \<bar>y - x\<bar> \<le> 1 / 200)"



section \<open>Notions the statements use\<close>

text \<open>
  A response that is a well-formed page: status 200 and a payload \<^verbatim>\<open>[meta, rows]\<close> whose
  metadata holds the integers \<open>p\<close> and \<open>ps\<close> under \<^verbatim>\<open>page\<close> and \<^verbatim>\<open>pages\<close> and whose
  second element is the list \<open>rows\<close>.
\<close>

fun is_page :: "response \<Rightarrow> int \<Rightarrow> int \<Rightarrow> json list \<Rightarrow> bool" where
  "is_page (Response st tx (Some (JList [JObj kv, JList rs]))) p ps rows =
     (st = 200 \<and> map_of kv ''page'' = Some (JInt p) \<and> map_of kv ''pages'' = Some (JInt ps)
      \<and> rs = rows)"
| "is_page resp p ps rows = False"

text \<open>The outcomes of the cached fetch for a list of (country, indicator) pairs, called one
  after the other.\<close>

fun outcomes ::
  "(string \<Rightarrow> float64) \<Rightarrow> network \<Rightarrow> (string \<times> string) list \<Rightarrow> world
     \<Rightarrow> ((error + series_frame) list \<times> world) option" where
  "outcomes parse net [] w = Some ([], w)"
| "outcomes parse net ((c, ind) # ps) w =
     (case wb_fetch_series parse net c ind w of
        None \<Rightarrow> None
      | Some (r, w') \<Rightarrow>
          (case outcomes parse net ps w' of
             None \<Rightarrow> None
           | Some (rs, w'') \<Rightarrow> Some (r # rs, w'')))"

text \<open>The frames of the calls that returned, and the failures of the calls that raised,
  each with its pair.\<close>

fun succeeded :: "(error + series_frame) list \<Rightarrow> series_frame list" where
  "succeeded [] = []"
| "succeeded (Inr df # rs) = df # succeeded rs"
| "succeeded (Inl e # rs) = succeeded rs"

fun failed :: "((string \<times> string) \<times> (error + series_frame)) list \<Rightarrow> (string \<times> string \<times> error) list" where
  "failed [] = []"
| "failed (((c, ind), Inl e) # rs) = (ind, c, e) # failed rs"
| "failed (((c, ind), Inr df) # rs) = failed rs"

text \<open>The mean and the sample standard deviation of a list of numbers, and the values of
  the group of a pair of labels in a frame.\<close>

definition avg :: "real list \<Rightarrow> real" where
  "avg xs = sum_list xs / real (length xs)"

definition stddev :: "real list \<Rightarrow> real" where
  "stddev xs = sqrt ((\<Sum>x\<leftarrow>xs. (x - avg xs)\<^sup>2) / real (length xs - 1))"

definition group_values :: "obs list \<Rightarrow> string \<Rightarrow> string \<Rightarrow> float64 list" where
  "group_values data c k =
     map val (filter (\<lambda>r. countryiso3code r = Some c \<and> indicator r = Some k) data)"




text \<open>
  The rows the wide table is built from: those of a selected indicator whose country and
  indicator name are present. And, for a year and a column, the cells (of the column
  charted) of the rows that match them.
\<close>

definition selected :: "string list \<Rightarrow> obs \<Rightarrow> bool" where
  "selected codes r =
     (indicator r \<in> Some ` set codes \<and> country r \<noteq> None \<and> indicator_name r \<noteq> None)"

definition matching :: "string list \<Rightarrow> (obs \<times> float64) list \<Rightarrow> int \<Rightarrow> string \<times> string \<Rightarrow> float64 list" where
  "matching codes df d col =
     map snd (filter (\<lambda>(r, y). selected codes r \<and> date r = d \<and> country r = Some (fst col)
                              \<and> indicator_name r = Some (snd col)) df)"

subsection \<open>Sample responses\<close>

definition sample_row :: "json \<Rightarrow> json \<Rightarrow> json" where
  "sample_row d v =
     JObj [(''indicator'', JObj [(''id'', JStr ''NY.GDP.MKTP.KD.ZG''), (''value'', JStr ''GDP growth (annual %)'')]),
           (''country'', JObj [(''id'', JStr ''US''), (''value'', JStr ''United States'')]),
           (''countryiso3code'', JStr ''USA''),
           (''date'', d),
           (''value'', v)]"

definition envelope :: "(string \<times> json) list \<Rightarrow> json list \<Rightarrow> response" where
  "envelope meta rows = Response 200 [] (Some (JList [JObj meta, JList rows]))"

text \<open>A series of two pages.\<close>

definition two_pages :: network where
  "two_pages t c ind page =
     (if page = 1
      then envelope [(''page'', JInt 1), (''pages'', JInt 2)] [sample_row (JStr ''2020'') (JReal (-3.4))]
      else envelope [(''page'', JInt 2), (''pages'', JInt 2)] [sample_row (JStr ''2019'') (JReal 2.3)])"

text \<open>A series of three pages whose second answer repeats the page number 1.\<close>

definition lagging_pages :: network where
  "lagging_pages t c ind page =
     (if page = 1
      then envelope [(''page'', JInt 1), (''pages'', JInt 2)] [sample_row (JStr ''2021'') (JReal 5.8)]
      else if page = 2
      then envelope [(''page'', JInt 1), (''pages'', JInt 2)] [sample_row (JStr ''2020'') (JReal (-3.4))]
      else envelope [(''page'', JInt 2), (''pages'', JInt 2)] [sample_row (JStr ''2019'') (JReal 2.3)])"

text \<open>A page whose metadata lacks \<^verbatim>\<open>page\<close>.\<close>

definition no_page_field :: network where
  "no_page_field t c ind page = envelope [(''pages'', JInt 1)] [sample_row (JStr ''2020'') (JReal 1)]"

text \<open>A page with a row whose year is the text of one superscript two.\<close>

definition superscript_year :: network where
  "superscript_year t c ind page =
     envelope [(''page'', JInt 1), (''pages'', JInt 1)]
       [sample_row (JStr ''2020'') (JReal 1), sample_row (JStr [CHR 0xB2]) (JReal 2)]"

text \<open>A service that answers the first request with status 500 and every later one with a
  page.\<close>

definition fails_once :: network where
  "fails_once t c ind page =
     (if t = 0 then Response 500 ''Internal Server Error'' None
      else envelope [(''page'', JInt 1), (''pages'', JInt 1)] [sample_row (JStr ''2020'') (JReal 1)])"

definition empty_world :: world where
  "empty_world = \<lparr>clock = 0, cache = (\<lambda>k. None)\<rparr>"

text \<open>A service that fails for the inflation indicator and answers every other request with
  a page.\<close>

definition inflation_fails :: network where
  "inflation_fails t c ind page =
     (if ind = ''FP.CPI.TOTL.ZG'' then Response 503 ''Service Unavailable'' None
      else envelope [(''page'', JInt 1), (''pages'', JInt 1)] [sample_row (JStr ''2020'') (JReal 1)])"

text \<open>The observation a sample row becomes.\<close>

definition sample_obs :: "int \<Rightarrow> real \<Rightarrow> (json, int, float64) row" where
  "sample_obs y v =
     \<lparr>country = JStr ''United States'', countryiso3code = JStr ''USA'',
      indicator = JStr ''NY.GDP.MKTP.KD.ZG'', date = y, val = Num v\<rparr>"

text \<open>Observations of the dashboard's frame: GDP growth of the United States.\<close>

definition usa_gdp :: "int \<Rightarrow> float64 \<Rightarrow> obs" where
  "usa_gdp y v =
     \<lparr>country = Some ''United States'', countryiso3code = Some ''USA'',
      indicator = Some ''NY.GDP.MKTP.KD.ZG'', date = y, val = v\<rparr>"


section \<open>The page loop ends\<close>

lemma is_pageD:
  assumes "is_page resp p ps rows"
  obtains tx kv where "resp = Response 200 tx (Some (JList [JObj kv, JList rows]))"
    "map_of kv ''page'' = Some (JInt p)" "map_of kv ''pages'' = Some (JInt ps)"
  using assms by (elim is_page.elims(2)) auto

lemma loop_body_page:
  assumes "is_page resp p ps rows"
  shows "loop_body resp acc =
    (if rows = [] then Leave (Inr acc)
     else if ps \<le> p then Leave (Inr (acc @ rows)) else Next (acc @ rows))"
proof -
  from assms obtain tx kv where r: "resp = Response 200 tx (Some (JList [JObj kv, JList rows]))"
    and p: "map_of kv ''page'' = Some (JInt p)" and ps: "map_of kv ''pages'' = Some (JInt ps)"
    by (rule is_pageD)
  have lp: "last_page (JObj kv) = Inr (ps \<le> p)"
    by (simp add: last_page_def p ps)
  show ?thesis
    by (simp add: r loop_body_def lp)
qed

text \<open>The loop from its iteration \<open>j\<close> on (counted from 0), with \<open>acc\<close> accumulated: it
  goes on as long as the answers carry rows and a page number below the total, and leaves
  at the first answer that does not.\<close>

lemma fetch_pages_from:
  assumes pages: "\<And>i. i < k \<Longrightarrow> is_page (net (t0 + i) c ind (Suc i)) (pg i) (pgs i) (rws i)"
    and bound: "\<And>i. i < k \<Longrightarrow> pg i \<le> pgs i"
    and last: "pg (k - 1) = pgs (k - 1) \<or> rws (k - 1) = []"
    and j: "j < k"
  shows "\<exists>n. j < n \<and> n \<le> k
    \<and> (\<forall>i. j \<le> i \<and> i < n - 1 \<longrightarrow> rws i \<noteq> [] \<and> pg i < pgs i)
    \<and> (rws (n - 1) = [] \<or> pg (n - 1) = pgs (n - 1))
    \<and> fetch_pages net c ind (Suc j) acc (t0 + j) = Some (Inr (acc @ concat (map rws [j..<n])), t0 + n)"
  using j
proof (induction "k - j" arbitrary: j acc)
  case 0
  then show ?case by simp
next
  case (Suc d)
  have body: "loop_body (net (t0 + j) c ind (Suc j)) acc =
    (if rws j = [] then Leave (Inr acc)
     else if pgs j \<le> pg j then Leave (Inr (acc @ rws j)) else Next (acc @ rws j))"
    using pages [OF Suc.prems] by (rule loop_body_page)
  have le: "pg j \<le> pgs j" using bound [OF Suc.prems] .
  have up: "[j..<Suc j] = [j]" by simp
  show ?case
  proof (cases "rws j = [] \<or> pgs j \<le> pg j")
    case True
    then have "fetch_pages net c ind (Suc j) acc (t0 + j) = Some (Inr (acc @ rws j), t0 + Suc j)"
      by (subst fetch_pages.simps) (auto simp: body)
    moreover have "rws j = [] \<or> pg j = pgs j" using True le by auto
    moreover have "\<forall>i. j \<le> i \<and> i < Suc j - 1 \<longrightarrow> rws i \<noteq> [] \<and> pg i < pgs i" by auto
    ultimately show ?thesis using Suc.prems
      by (intro exI [of _ "Suc j"]) (simp del: upt_Suc add: up)
  next
    case False
    then have ne: "rws j \<noteq> []" and lt: "pg j < pgs j" by auto
    have "Suc j < k"
    proof (rule ccontr)
      assume "\<not> Suc j < k"
      with Suc.prems have "k - 1 = j" by auto
      with last ne lt show False by auto
    qed
    moreover from this Suc.hyps have "d = k - Suc j" by simp
    ultimately obtain n where n: "Suc j < n" "n \<le> k"
      "\<forall>i. Suc j \<le> i \<and> i < n - 1 \<longrightarrow> rws i \<noteq> [] \<and> pg i < pgs i"
      "rws (n - 1) = [] \<or> pg (n - 1) = pgs (n - 1)"
      "fetch_pages net c ind (Suc (Suc j)) (acc @ rws j) (t0 + Suc j)
         = Some (Inr ((acc @ rws j) @ concat (map rws [Suc j..<n])), t0 + n)"
      using Suc.hyps(1) [of "Suc j" "acc @ rws j"] by blast
    have run: "fetch_pages net c ind (Suc j) acc (t0 + j)
        = fetch_pages net c ind (Suc (Suc j)) (acc @ rws j) (t0 + Suc j)"
      by (subst fetch_pages.simps) (use ne lt in \<open>simp add: body\<close>)
    have split: "[j..<n] = j # [Suc j..<n]" using n(1) by (simp add: upt_conv_Cons)
    have before: "\<forall>i. j \<le> i \<and> i < n - 1 \<longrightarrow> rws i \<noteq> [] \<and> pg i < pgs i"
    proof (intro allI impI)
      fix i assume i: "j \<le> i \<and> i < n - 1"
      show "rws i \<noteq> [] \<and> pg i < pgs i"
      proof (cases "i = j")
        case True
        with ne lt show ?thesis by simp
      next
        case False
        with i have "Suc j \<le> i \<and> i < n - 1" by auto
        with n(3) show ?thesis by blast
      qed
    qed
    have res: "fetch_pages net c ind (Suc j) acc (t0 + j)
        = Some (Inr (acc @ concat (map rws [j..<n])), t0 + n)"
      unfolding run n(5) split by simp
    from n(1) have "j < n" by simp
    with n(2) before n(4) res show ?thesis by blast
  qed
qed

text \<open>
  C1 (as amended). Let the first \<open>k\<close> requests of a fetch (for the pages 1 to \<open>k\<close>) be
  answered by well-formed pages, the \<open>i\<close>-th of them (counted from 0) reporting the page
  number \<open>pg i\<close> and a total \<open>pgs i\<close> of pages that is not below it, and carrying the rows
  \<open>rws i\<close>; and let the \<open>k\<close>-th answer report its page number equal to the total, or carry
  no rows. Then the loop ends, without an exception, after some number \<open>n\<close> of iterations
  (requests) with \<open>1 \<le> n \<le> k\<close>: it ends at the first answer that carries no rows or
  reports its page number equal to the total, and it returns the rows of the pages read,
  in order. If every answer reports the number of the page requested, \<open>n\<close> is at most the
  total that the last answer read reports.
\<close>

theorem fetch_pages_terminates:
  assumes "0 < k"
    and "\<And>i. i < k \<Longrightarrow> is_page (net (t0 + i) c ind (Suc i)) (pg i) (pgs i) (rws i)"
    and "\<And>i. i < k \<Longrightarrow> pg i \<le> pgs i"
    and "pg (k - 1) = pgs (k - 1) \<or> rws (k - 1) = []"
  shows "\<exists>n. 0 < n \<and> n \<le> k
    \<and> (\<forall>i. i < n - 1 \<longrightarrow> rws i \<noteq> [] \<and> pg i < pgs i)
    \<and> (rws (n - 1) = [] \<or> pg (n - 1) = pgs (n - 1))
    \<and> fetch_pages net c ind 1 [] t0 = Some (Inr (concat (map rws [0..<n])), t0 + n)
    \<and> ((\<forall>i. i < k \<longrightarrow> pg i = int (Suc i)) \<longrightarrow> int n \<le> pgs (n - 1))"
proof -
  from fetch_pages_from [of k net t0 c ind pg pgs rws 0 "[]"] assms
  obtain n where n: "0 < n" "n \<le> k"
    "\<forall>i. i < n - 1 \<longrightarrow> rws i \<noteq> [] \<and> pg i < pgs i"
    "rws (n - 1) = [] \<or> pg (n - 1) = pgs (n - 1)"
    "fetch_pages net c ind 1 [] t0 = Some (Inr (concat (map rws [0..<n])), t0 + n)"
    by auto
  have "int n \<le> pgs (n - 1)" if echo: "\<forall>i. i < k \<longrightarrow> pg i = int (Suc i)"
  proof -
    from n(1,2) have "n - 1 < k" by simp
    with echo assms(3) [of "n - 1"] n(1) show ?thesis by auto
  qed
  with n show ?thesis by blast
qed

theorem fetch_pages_terminates_witness:
  "\<exists>n. 0 < n \<and> n \<le> 2 \<and> int n \<le> 2 \<and>
     fetch_pages two_pages ''USA'' ''NY.GDP.MKTP.KD.ZG'' 1 [] 0
       = Some (Inr (concat (map (\<lambda>i. if i = 0 then [sample_row (JStr ''2020'') (JReal (-3.4))]
                                      else [sample_row (JStr ''2019'') (JReal 2.3)]) [0..<n])), 0 + n)"
proof -
  let ?rws = "\<lambda>i::nat. if i = 0 then [sample_row (JStr ''2020'') (JReal (-3.4))]
                        else [sample_row (JStr ''2019'') (JReal 2.3)]"
  have a: "0 < (2::nat)" by simp
  have b: "is_page (two_pages (0 + i) ''USA'' ''NY.GDP.MKTP.KD.ZG'' (Suc i)) (int (Suc i)) 2 (?rws i)"
    if "i < 2" for i
  proof -
    from that have "i = 0 \<or> i = 1" by auto
    then show ?thesis by (auto simp: two_pages_def envelope_def)
  qed
  have c: "int (Suc i) \<le> 2" if "i < 2" for i using that by simp
  have d: "int (Suc (2 - 1)) = 2 \<or> ?rws (2 - 1) = []" by simp
  from fetch_pages_terminates [of 2 two_pages 0 "''USA''" "''NY.GDP.MKTP.KD.ZG''"
      "\<lambda>i. int (Suc i)" "\<lambda>i. 2" ?rws, OF a b c d]
  obtain n where "0 < n" "n \<le> 2"
    "fetch_pages two_pages ''USA'' ''NY.GDP.MKTP.KD.ZG'' 1 [] 0 = Some (Inr (concat (map ?rws [0..<n])), 0 + n)"
    "(\<forall>i. i < 2 \<longrightarrow> int (Suc i) = int (Suc i)) \<longrightarrow> int n \<le> 2"
    by blast
  then show ?thesis by (intro exI [of _ n]) simp
qed

text \<open>
  The claim as stated fails when an answer does not report the number of the page
  requested. Here every answer is a well-formed page with a total of 2 pages that is not
  below its page number, and the third answer reports page 2 of 2; the second answer
  repeats the page number 1. The loop makes three iterations, more than the total of 2.
\<close>

theorem lagging_page_number_three_iterations:
  "is_page (lagging_pages 0 ''USA'' ''NY.GDP.MKTP.KD.ZG'' 1) 1 2 [sample_row (JStr ''2021'') (JReal 5.8)]
   \<and> is_page (lagging_pages 1 ''USA'' ''NY.GDP.MKTP.KD.ZG'' 2) 1 2 [sample_row (JStr ''2020'') (JReal (-3.4))]
   \<and> is_page (lagging_pages 2 ''USA'' ''NY.GDP.MKTP.KD.ZG'' 3) 2 2 [sample_row (JStr ''2019'') (JReal 2.3)]
   \<and> fetch_pages lagging_pages ''USA'' ''NY.GDP.MKTP.KD.ZG'' 1 [] 0
       = Some (Inr [sample_row (JStr ''2021'') (JReal 5.8), sample_row (JStr ''2020'') (JReal (-3.4)),
                    sample_row (JStr ''2019'') (JReal 2.3)], 3)
   \<and> \<not> (3::int) \<le> 2"
  by (simp add: fetch_pages.simps lagging_pages_def envelope_def loop_body_def last_page_def)

text \<open>What the loop does tolerate: a payload that is a list of fewer than two elements ends
  the loop with the rows accumulated, and so does a metadata dict without \<^verbatim>\<open>pages\<close> whose
  \<^verbatim>\<open>page\<close> is a number not below 1.\<close>

lemma short_payload_leaves:
  "length items < 2 \<Longrightarrow> loop_body (Response 200 tx (Some (JList items))) acc = Leave (Inr acc)"
  by (simp add: loop_body_def)

lemma missing_pages_is_last_page:
  "map_of kv ''pages'' = None \<Longrightarrow> map_of kv ''page'' = Some (JInt p) \<Longrightarrow> 1 \<le> p
     \<Longrightarrow> last_page (JObj kv) = Inr True"
  by (simp add: last_page_def)

text \<open>
  C5. A page whose metadata is a dict without \<^verbatim>\<open>page\<close> (and with rows) does not end the
  loop with the rows accumulated so far: \<^verbatim>\<open>meta.get("page")\<close> is \<^verbatim>\<open>None\<close>, the comparison
  with \<^verbatim>\<open>meta.get("pages", 1)\<close> raises \<^verbatim>\<open>TypeError\<close>, and the fetch fails. (A missing
  \<^verbatim>\<open>pages\<close> has the default 1.)
\<close>

theorem missing_page_field_raises:
  "fetch_pages no_page_field ''USA'' ''NY.GDP.MKTP.KD.ZG'' 1 [] 0 = Some (Inl TypeError, 1)"
  by (simp add: fetch_pages.simps no_page_field_def envelope_def loop_body_def last_page_def sample_row_def)

text \<open>A frame that \<^verbatim>\<open>wb_fetch_series\<close> returns is sorted by year.\<close>

lemma build_frame_sorted:
  "build_frame parse all_rows = Inr df \<Longrightarrow> sorted (map date df)"
proof -
  have "map date (to_numeric_value parse xs) = map date xs" for xs :: "(json, int, json) row list"
    by (simp add: to_numeric_value_def comp_def)
  then show "build_frame parse all_rows = Inr df \<Longrightarrow> sorted (map date df)"
    by (auto simp: build_frame_def sort_values_date_def split: if_splits sum.splits)
qed

text \<open>
  C10. A row whose year is a string of digit characters that \<^verbatim>\<open>int\<close> does not read (here
  one superscript two) is not dropped: \<^verbatim>\<open>str.isdigit\<close> accepts it, \<^verbatim>\<open>int\<close> raises
  \<^verbatim>\<open>ValueError\<close>, and the whole series fails.
\<close>

theorem superscript_year_fails_series:
  "wb_fetch_series_raw parse superscript_year ''USA'' ''NY.GDP.MKTP.KD.ZG'' 0 = Some (Inl ValueError, 1)"
  by (simp add: wb_fetch_series_raw_def fetch_pages.simps superscript_year_def envelope_def loop_body_def
      last_page_def sample_row_def build_frame_def make_record_def date_cell_def isdigit_char_def ascii_digit_def)

section \<open>The cache of \<^verbatim>\<open>wb_fetch_series\<close>\<close>

lemma fetch_pages_advances_snd:
  assumes "fetch_pages net0 c0 ind0 page0 acc0 t0 = Some y0"
  shows "t0 < snd y0"
proof (rule fetch_pages.raw_induct [where P = "\<lambda>net c ind page acc t y. t < snd y", OF _ assms])
  fix fp :: "network \<Rightarrow> string \<Rightarrow> string \<Rightarrow> nat \<Rightarrow> json list \<Rightarrow> nat \<Rightarrow> ((error + json list) \<times> nat) option"
    and net c ind page all_rows t y
  assume IH: "\<And>net c ind page all_rows t y. fp net c ind page all_rows t = Some y \<Longrightarrow> t < snd y"
    and eq: "(case loop_body (net t c ind page) all_rows of
        Leave res \<Rightarrow> Some (res, Suc t)
      | Next rows \<Rightarrow> fp net c ind (Suc page) rows (Suc t)) = Some y"
  show "t < snd y"
  proof (cases "loop_body (net t c ind page) all_rows")
    case (Leave res)
    with eq show ?thesis by auto
  next
    case (Next rows)
    with eq have "fp net c ind (Suc page) rows (Suc t) = Some y" by simp
    then have "Suc t < snd y" by (rule IH)
    then show ?thesis by simp
  qed
qed

lemma wb_fetch_series_raw_advances:
  "wb_fetch_series_raw parse net c ind t = Some (r, t') \<Longrightarrow> t < t'"
  by (auto simp: wb_fetch_series_raw_def split: option.splits sum.splits prod.splits
      dest!: fetch_pages_advances_snd)

text \<open>
  C8 (as amended). If a get for a key returns a frame, the next get for the key returns
  the same frame from the store and issues no request: the world, with its request count,
  is unchanged. If a get raises, nothing is stored for the key, at least one request has
  been issued, and the next get for the key runs the fetch again: when it returns, it has
  issued at least one more request.
\<close>

theorem second_get:
  assumes "wb_fetch_series parse net c ind w = Some (r, w1)"
  shows "case r of
      Inr df \<Rightarrow> wb_fetch_series parse net c ind w1 = Some (Inr df, w1)
    | Inl e \<Rightarrow> cache w1 (c, ind) = None \<and> clock w < clock w1 \<and>
        (\<forall>r2 w2. wb_fetch_series parse net c ind w1 = Some (r2, w2) \<longrightarrow> clock w1 < clock w2)"
proof (cases "cache w (c, ind)")
  case (Some df)
  with assms show ?thesis by (auto simp: wb_fetch_series_def)
next
  case None
  show ?thesis
  proof (cases r)
    case (Inr df)
    with assms None have "cache w1 (c, ind) = Some df"
      by (auto simp: wb_fetch_series_def split: option.splits sum.splits prod.splits)
    then show ?thesis using Inr by (simp add: wb_fetch_series_def)
  next
    case (Inl e)
    with assms None obtain t' where raw: "wb_fetch_series_raw parse net c ind (clock w) = Some (Inl e, t')"
      and w1: "w1 = w\<lparr>clock := t'\<rparr>"
      by (auto simp: wb_fetch_series_def split: option.splits sum.splits prod.splits)
    have a: "cache w1 (c, ind) = None" using None w1 by simp
    have b: "clock w < clock w1" using wb_fetch_series_raw_advances [OF raw] w1 by simp
    have c: "clock w1 < clock w2" if "wb_fetch_series parse net c ind w1 = Some (r2, w2)" for r2 w2
      using that a
      by (auto simp: wb_fetch_series_def split: option.splits sum.splits prod.splits
          dest!: wb_fetch_series_raw_advances)
    show ?thesis using Inl a b c by simp
  qed
qed


theorem second_get_witness:
  "wb_fetch_series (\<lambda>s. NaN) two_pages ''USA'' ''NY.GDP.MKTP.KD.ZG''
      (empty_world\<lparr>clock := 2,
         cache := (cache empty_world)((''USA'', ''NY.GDP.MKTP.KD.ZG'') \<mapsto> [sample_obs 2019 2.3, sample_obs 2020 (-3.4)])\<rparr>)
    = Some (Inr [sample_obs 2019 2.3, sample_obs 2020 (-3.4)],
        empty_world\<lparr>clock := 2,
          cache := (cache empty_world)((''USA'', ''NY.GDP.MKTP.KD.ZG'') \<mapsto> [sample_obs 2019 2.3, sample_obs 2020 (-3.4)])\<rparr>)
   \<and> cache (empty_world\<lparr>clock := 1\<rparr>) (''USA'', ''NY.GDP.MKTP.KD.ZG'') = None
   \<and> clock empty_world < clock (empty_world\<lparr>clock := 1\<rparr>)"
proof -
  have first: "wb_fetch_series (\<lambda>s. NaN) two_pages ''USA'' ''NY.GDP.MKTP.KD.ZG'' empty_world
    = Some (Inr [sample_obs 2019 2.3, sample_obs 2020 (-3.4)],
        empty_world\<lparr>clock := 2,
          cache := (cache empty_world)((''USA'', ''NY.GDP.MKTP.KD.ZG'') \<mapsto> [sample_obs 2019 2.3, sample_obs 2020 (-3.4)])\<rparr>)"
    by (simp add: wb_fetch_series_def wb_fetch_series_raw_def fetch_pages.simps two_pages_def
        envelope_def loop_body_def last_page_def sample_row_def build_frame_def make_record_def
        date_cell_def isdigit_char_def ascii_digit_def decimal_def sort_values_date_def
        to_numeric_value_def sample_obs_def empty_world_def)
  have failing: "wb_fetch_series (\<lambda>s. NaN) fails_once ''USA'' ''NY.GDP.MKTP.KD.ZG'' empty_world
    = Some (Inl (RuntimeError 500 ''Internal Server Error''), empty_world\<lparr>clock := 1\<rparr>)"
    by (simp add: wb_fetch_series_def wb_fetch_series_raw_def fetch_pages.simps fails_once_def
        loop_body_def empty_world_def)
  from second_get [OF first] second_get [OF failing] show ?thesis by simp
qed

text \<open>
  The claim as stated fails when the first get raises. The service answers the first
  request with status 500: the first get raises \<^verbatim>\<open>RuntimeError\<close>, the second get issues a
  second request and returns a frame, so the two gets issue two fetches and give different
  outcomes.
\<close>

theorem second_get_refetches_after_failure:
  "wb_fetch_series (\<lambda>s. NaN) fails_once ''USA'' ''NY.GDP.MKTP.KD.ZG'' empty_world
     = Some (Inl (RuntimeError 500 ''Internal Server Error''), empty_world\<lparr>clock := 1\<rparr>)
   \<and> wb_fetch_series (\<lambda>s. NaN) fails_once ''USA'' ''NY.GDP.MKTP.KD.ZG'' (empty_world\<lparr>clock := 1\<rparr>)
     = Some (Inr [sample_obs 2020 1],
         empty_world\<lparr>clock := 2,
           cache := (cache empty_world)((''USA'', ''NY.GDP.MKTP.KD.ZG'') \<mapsto> [sample_obs 2020 1])\<rparr>)"
  by (simp add: wb_fetch_series_def wb_fetch_series_raw_def fetch_pages.simps fails_once_def
      envelope_def loop_body_def last_page_def sample_row_def build_frame_def make_record_def
      date_cell_def isdigit_char_def ascii_digit_def decimal_def sort_values_date_def
      to_numeric_value_def sample_obs_def empty_world_def)

section \<open>The batch tolerates failing pairs\<close>

lemma outcomes_length:
  "outcomes parse net ps w = Some (rs, w') \<Longrightarrow> length rs = length ps"
proof (induction ps arbitrary: w rs)
  case Nil
  then show ?case by simp
next
  case (Cons p ps)
  obtain c ind where p: "p = (c, ind)" by (cases p)
  from Cons.prems obtain r w1 rs1 where "wb_fetch_series parse net c ind w = Some (r, w1)"
    "outcomes parse net ps w1 = Some (rs1, w')" "rs = r # rs1"
    by (auto simp: p split: option.splits prod.splits)
  with Cons.IH show ?case by auto
qed

lemma outcomes_append:
  "outcomes parse net (ps @ qs) w =
     (case outcomes parse net ps w of
        None \<Rightarrow> None
      | Some (rs, w') \<Rightarrow>
          (case outcomes parse net qs w' of
             None \<Rightarrow> None
           | Some (rs', w'') \<Rightarrow> Some (rs @ rs', w'')))"
proof (induction ps arbitrary: w)
  case Nil
  then show ?case by (simp split: option.splits prod.splits)
next
  case (Cons p ps)
  obtain c ind where p: "p = (c, ind)" by (cases p)
  show ?case
    by (simp add: p Cons.IH split: option.splits prod.splits)
qed

lemma succeeded_append: "succeeded (xs @ ys) = succeeded xs @ succeeded ys"
  by (induction xs rule: succeeded.induct) simp_all

lemma failed_append: "failed (xs @ ys) = failed xs @ failed ys"
  by (induction xs rule: failed.induct) simp_all

lemma fetch_indicators_outcomes:
  "fetch_indicators parse net c inds (frames, warnings, w) =
     (case outcomes parse net (map (Pair c) inds) w of
        None \<Rightarrow> None
      | Some (rs, w') \<Rightarrow>
          Some (frames @ succeeded rs, warnings @ failed (zip (map (Pair c) inds) rs), w'))"
proof (induction inds arbitrary: frames warnings w)
  case Nil
  then show ?case by simp
next
  case (Cons ind inds)
  show ?case
    by (simp add: Cons.IH split: option.splits prod.splits sum.splits)
qed

lemma fetch_countries_outcomes:
  "fetch_countries parse net cs inds (frames, warnings, w) =
     (case outcomes parse net (List.product cs inds) w of
        None \<Rightarrow> None
      | Some (rs, w') \<Rightarrow>
          Some (frames @ succeeded rs, warnings @ failed (zip (List.product cs inds) rs), w'))"
proof (induction cs arbitrary: frames warnings w)
  case Nil
  then show ?case by simp
next
  case (Cons c cs)
  show ?case
  proof (cases "outcomes parse net (map (Pair c) inds) w")
    case None
    then show ?thesis by (simp add: fetch_indicators_outcomes outcomes_append)
  next
    case (Some a)
    obtain rs1 w1 where a: "a = (rs1, w1)" by (cases a)
    have len: "length rs1 = length (map (Pair c) inds)"
      using Some a by (auto dest: outcomes_length)
    show ?thesis
      using len
      by (simp add: fetch_indicators_outcomes outcomes_append Some a Cons.IH
          succeeded_append failed_append split: option.splits prod.splits)
  qed
qed

lemma length_failed: "length (failed (zip ps rs)) = length (filter isl (take (length ps) rs))"
proof (induction ps arbitrary: rs)
  case Nil
  then show ?case by simp
next
  case (Cons p ps)
  obtain c ind where p: "p = (c, ind)" by (cases p)
  show ?case
  proof (cases rs)
    case Nil
    then show ?thesis by simp
  next
    case (Cons r rs')
    then show ?thesis using Cons.IH [of rs'] by (cases r) (simp_all add: p)
  qed
qed

lemma failed_pairs:
  "map (\<lambda>(ind, c, e). (c, ind)) (failed (zip ps rs)) = map fst (filter (\<lambda>x. isl (snd x)) (zip ps rs))"
proof (induction ps arbitrary: rs)
  case Nil
  then show ?case by simp
next
  case (Cons p ps)
  obtain c ind where p: "p = (c, ind)" by (cases p)
  show ?case
  proof (cases rs)
    case Nil
    then show ?thesis by simp
  next
    case (Cons r rs')
    then show ?thesis using Cons.IH [of rs'] by (cases r) (simp_all add: p)
  qed
qed

lemma succeeded_all_failed: "list_all isl rs \<Longrightarrow> succeeded rs = []"
  by (induction rs rule: succeeded.induct) simp_all

text \<open>
  C2. Let every fetch of the batch return or raise (none loops for ever), with the
  outcomes \<open>rs\<close> for the pairs of countries and indicators in the order of the two loops.
  Then \<^verbatim>\<open>wb_fetch_multi\<close> returns, it does not raise: its frame holds the rows of all
  the frames fetched, in order; its warnings are the failing pairs with their exceptions,
  one for each failing pair, in order. If there are pairs and all of them fail, the frame
  has no rows and there is a warning.
\<close>

theorem wb_fetch_multi_tolerates_failures:
  assumes "outcomes parse net (List.product countries_iso3 indicators) w = Some (rs, w')"
  shows "wb_fetch_multi parse net countries_iso3 indicators w
      = Some (concat (succeeded rs), failed (zip (List.product countries_iso3 indicators) rs), w')
    \<and> map (\<lambda>(ind, c, e). (c, ind)) (failed (zip (List.product countries_iso3 indicators) rs))
      = map fst (filter (\<lambda>x. isl (snd x)) (zip (List.product countries_iso3 indicators) rs))
    \<and> length (failed (zip (List.product countries_iso3 indicators) rs)) = length (filter isl rs)
    \<and> (rs \<noteq> [] \<and> list_all isl rs \<longrightarrow>
         concat (succeeded rs) = [] \<and> failed (zip (List.product countries_iso3 indicators) rs) \<noteq> [])"
proof -
  let ?ps = "List.product countries_iso3 indicators"
  have len: "length rs = length ?ps" using assms by (rule outcomes_length)
  have a: "wb_fetch_multi parse net countries_iso3 indicators w
      = Some (concat (succeeded rs), failed (zip ?ps rs), w')"
    by (simp add: wb_fetch_multi_def fetch_countries_outcomes assms)
  have b: "length (failed (zip ?ps rs)) = length (filter isl rs)"
    by (simp add: length_failed len)
  have c: "concat (succeeded rs) = [] \<and> failed (zip ?ps rs) \<noteq> []" if "rs \<noteq> []" "list_all isl rs"
  proof -
    from that(2) have "filter isl rs = rs" by (simp add: list_all_iff)
    with b that(1) have "failed (zip ?ps rs) \<noteq> []" by auto
    with that(2) show ?thesis by (simp add: succeeded_all_failed)
  qed
  show ?thesis using a b c failed_pairs [of ?ps rs] by blast
qed

theorem wb_fetch_multi_tolerates_failures_witness:
  "wb_fetch_multi (\<lambda>s. NaN) inflation_fails [''USA''] [''FP.CPI.TOTL.ZG'', ''NY.GDP.MKTP.KD.ZG''] empty_world
     = Some ([sample_obs 2020 1],
             [(''FP.CPI.TOTL.ZG'', ''USA'', RuntimeError 503 ''Service Unavailable'')],
             empty_world\<lparr>clock := 2,
               cache := (cache empty_world)((''USA'', ''NY.GDP.MKTP.KD.ZG'') \<mapsto> [sample_obs 2020 1])\<rparr>)"
proof -
  have out: "outcomes (\<lambda>s. NaN) inflation_fails
      (List.product [''USA''] [''FP.CPI.TOTL.ZG'', ''NY.GDP.MKTP.KD.ZG'']) empty_world
    = Some ([Inl (RuntimeError 503 ''Service Unavailable''), Inr [sample_obs 2020 1]],
        empty_world\<lparr>clock := 2,
          cache := (cache empty_world)((''USA'', ''NY.GDP.MKTP.KD.ZG'') \<mapsto> [sample_obs 2020 1])\<rparr>)"
    by (simp add: wb_fetch_series_def wb_fetch_series_raw_def fetch_pages.simps inflation_fails_def
        envelope_def loop_body_def last_page_def sample_row_def build_frame_def make_record_def
        date_cell_def isdigit_char_def ascii_digit_def decimal_def sort_values_date_def
        to_numeric_value_def sample_obs_def empty_world_def)
  from wb_fetch_multi_tolerates_failures [OF out] show ?thesis by simp
qed

section \<open>Year filter\<close>

lemma loc_mask_filter: "loc_mask (map P xs) xs = filter P xs"
  by (induction xs) (simp_all add: loc_mask_def)

lemma year_mask_map:
  "year_mask lo hi data = map (\<lambda>r. lo \<le> date r \<and> date r \<le> hi) data"
  by (induction data) (simp_all add: year_mask_def)

text \<open>
  C9. The filter keeps exactly the rows whose year lies between the two bounds, both
  included, each row as it was and in the order of the frame.
\<close>

theorem filter_years_exact:
  "filter_years min_year max_year data = filter (\<lambda>r. min_year \<le> date r \<and> date r \<le> max_year) data
   \<and> set (filter_years min_year max_year data) = {r \<in> set data. min_year \<le> date r \<and> date r \<le> max_year}"
  by (simp add: filter_years_def year_mask_map loc_mask_filter)

section \<open>Normalisation\<close>

lemma nths_filter_index:
  "map ((!) xs) (filter (\<lambda>j. P (xs ! j)) [0..<length xs]) = filter P xs"
proof (induction xs rule: rev_induct)
  case Nil
  then show ?case by simp
next
  case (snoc x xs)
  have "map ((!) (xs @ [x])) (filter (\<lambda>j. P ((xs @ [x]) ! j)) [0..<length xs])
      = map ((!) xs) (filter (\<lambda>j. P (xs ! j)) [0..<length xs])"
    by (auto simp: nth_append intro!: map_cong filter_cong)
  with snoc show ?case by simp
qed

lemma place_in_group:
  assumes "i < n" and "Q i"
  shows "length (filter (\<lambda>j. j < i) (filter Q [0..<n])) < length (filter Q [0..<n])
    \<and> filter Q [0..<n] ! length (filter (\<lambda>j. j < i) (filter Q [0..<n])) = i"
proof -
  have split: "[0..<n] = [0..<i] @ i # [Suc i..<n]"
    using assms(1) by (metis le_add1 less_imp_add_positive upt_add_eq_append upt_conv_Cons plus_nat.add_0 less_or_eq_imp_le)
  have idx: "filter Q [0..<n] = filter Q [0..<i] @ i # filter Q [Suc i..<n]"
    using assms(2) by (simp add: split)
  have c: "filter (\<lambda>j. j < i) (filter Q [0..<n]) = filter Q [0..<i]"
  proof -
    have "filter (\<lambda>x. Q x \<and> x < i) [0..<i] = filter Q [0..<i]"
      by (rule filter_cong) auto
    moreover have "filter (\<lambda>x. Q x \<and> x < i) [Suc i..<n] = []"
      by (auto simp: filter_empty_conv)
    ultimately show ?thesis by (simp add: split)
  qed
  have len: "length (filter Q [0..<i]) < length (filter Q [0..<n])"
    by (simp add: idx)
  have nth: "filter Q [0..<n] ! length (filter Q [0..<i]) = i"
    by (simp add: idx nth_append)
  from len nth show ?thesis unfolding c by blast
qed

lemma series_mean_avg: "present s \<noteq> [] \<Longrightarrow> series_mean s = Num (avg (present s))"
  by (simp add: series_mean_def avg_def Let_def)

lemma series_std_stddev: "2 \<le> length (present s) \<Longrightarrow> series_std s = Num (stddev (present s))"
  by (simp add: series_std_def stddev_def avg_def Let_def)

lemma stddev_short: "length xs < 2 \<Longrightarrow> stddev xs = 0"
proof -
  assume "length xs < 2"
  then consider "xs = []" | "length xs = 1" by (cases xs) auto
  then show ?thesis by cases (simp_all add: stddev_def)
qed

lemma zscore_group:
  assumes "stddev (present s) \<noteq> 0" and "p < length s"
  shows "zscore s ! p =
    (case s ! p of NaN \<Rightarrow> NaN | Num v \<Rightarrow> Num ((v - avg (present s)) / stddev (present s)))"
proof -
  have len: "2 \<le> length (present s)"
    using assms(1) stddev_short [of "present s"] by (cases "length (present s) < 2") auto
  then have ne: "present s \<noteq> []" by auto
  show ?thesis
    using assms
    by (simp add: zscore_def series_mean_avg [OF ne] series_std_stddev [OF len] divisor_def
        split: float64.splits)
qed

text \<open>
  C3. In a frame, take a row whose two labels are present; its group is the rows with
  the same labels. If the sample standard deviation of the present values of the group
  is not zero, the row's cell of \<^verbatim>\<open>value_norm\<close> is its value minus the mean of the present
  values of the group, divided by that standard deviation; mean and deviation are taken
  over the present values only; and the cell of a row whose value is absent (NaN) is
  absent. The column has the length of the frame.
\<close>

theorem value_norm_zscore:
  assumes "i < length data"
    and "countryiso3code (data ! i) = Some c"
    and "indicator (data ! i) = Some k"
    and "xs = present (group_values data c k)"
    and "stddev xs \<noteq> 0"
  shows "value_norm data ! i =
      (case val (data ! i) of NaN \<Rightarrow> NaN | Num v \<Rightarrow> Num ((v - avg xs) / stddev xs))
    \<and> length (value_norm data) = length data"
proof -
  let ?P = "\<lambda>r. countryiso3code r = Some c \<and> indicator r = Some k"
  let ?Q = "\<lambda>j. ?P (data ! j)"
  let ?idx = "filter ?Q [0..<length data]"
  let ?pos = "length (filter (\<lambda>j. j < i) ?idx)"
  let ?g = "map (\<lambda>j. val (data ! j)) ?idx"
  have g: "?g = group_values data c k"
    using nths_filter_index [of data ?P, THEN arg_cong, of "map val"]
    by (simp add: group_values_def comp_def)
  have pos: "?pos < length ?idx" and at: "?idx ! ?pos = i"
    using place_in_group [of i "length data" ?Q] assms(1-3) by auto
  have cell: "value_norm data ! i = zscore ?g ! ?pos"
    using assms(1-3) by (simp add: value_norm_def transform_groupby_def Let_def)
  have sd: "stddev (present ?g) \<noteq> 0"
    using assms(5) unfolding assms(4) g .
  have pos': "?pos < length ?g"
    using pos by (simp only: length_map)
  have gi: "?g ! ?pos = val (data ! i)"
    by (simp only: nth_map [OF pos] at)
  have "value_norm data ! i = zscore ?g ! ?pos"
    by (rule cell)
  also have "\<dots> = (case ?g ! ?pos of NaN \<Rightarrow> NaN
      | Num v \<Rightarrow> Num ((v - avg (present ?g)) / stddev (present ?g)))"
    by (rule zscore_group [OF sd pos'])
  also have "\<dots> = (case val (data ! i) of NaN \<Rightarrow> NaN | Num v \<Rightarrow> Num ((v - avg xs) / stddev xs))"
    by (subst gi) (simp only: g assms(4))
  finally have "value_norm data ! i =
      (case val (data ! i) of NaN \<Rightarrow> NaN | Num v \<Rightarrow> Num ((v - avg xs) / stddev xs))" .
  moreover have "length (value_norm data) = length data"
    by (simp add: value_norm_def transform_groupby_def)
  ultimately show ?thesis by simp
qed

theorem value_norm_zscore_witness:
  "value_norm [usa_gdp 2018 (Num 1), usa_gdp 2019 (Num 3), usa_gdp 2020 NaN, usa_gdp 2021 (Num 5)] ! 0 = Num (- 1)
   \<and> value_norm [usa_gdp 2018 (Num 1), usa_gdp 2019 (Num 3), usa_gdp 2020 NaN, usa_gdp 2021 (Num 5)] ! 2 = NaN"
proof -
  let ?data = "[usa_gdp 2018 (Num 1), usa_gdp 2019 (Num 3), usa_gdp 2020 NaN, usa_gdp 2021 (Num 5)]"
  have xs: "[1, 3, 5] = present (group_values ?data ''USA'' ''NY.GDP.MKTP.KD.ZG'')"
    by (simp add: group_values_def usa_gdp_def)
  have "sqrt ((8::real) / 2) = 2"
    by (rule real_sqrt_unique) (simp_all add: power2_eq_square)
  then have sd: "stddev [1, 3, 5] = 2" by (simp add: stddev_def avg_def)
  then have ne: "stddev [1, 3, 5] \<noteq> 0" by simp
  have "value_norm ?data ! 0 = Num (- 1)"
    using value_norm_zscore [of 0 ?data "''USA''" "''NY.GDP.MKTP.KD.ZG''" "[1, 3, 5]", OF _ _ _ xs ne]
    by (simp add: usa_gdp_def sd avg_def)
  moreover have "value_norm ?data ! 2 = NaN"
    using value_norm_zscore [of 2 ?data "''USA''" "''NY.GDP.MKTP.KD.ZG''" "[1, 3, 5]", OF _ _ _ xs ne]
    by (simp add: usa_gdp_def)
  ultimately show ?thesis by simp
qed

text \<open>A group whose values are all the same number gets the divisor 1: its cells are 0.\<close>

lemma constant_group_is_zero:
  "value_norm [usa_gdp 2018 (Num 5), usa_gdp 2019 (Num 5), usa_gdp 2020 (Num 5)] = [Num 0, Num 0, Num 0]"
  by (simp add: value_norm_def transform_groupby_def zscore_def series_mean_def series_std_def
      divisor_def usa_gdp_def upt_rec)

text \<open>
  C4. A group with one present value does not get the divisor 1. The standard deviation of
  one value is NaN; NaN is not equal to 0 and is not \<^verbatim>\<open>None\<close>, so the test
  \<^verbatim>\<open>s.std() not in (0, None)\<close> holds, the divisor is NaN, and the normalised cell is NaN,
  not value minus mean (which is 0).
\<close>

theorem single_value_group_is_nan:
  "value_norm [usa_gdp 2020 (Num 5)] = [NaN]"
  by (simp add: value_norm_def transform_groupby_def zscore_def series_mean_def series_std_def
      divisor_def usa_gdp_def)

section \<open>Correlation\<close>


lemma sum_sq_zero_iff:
  "(\<Sum>x\<leftarrow>xs. (x - m)\<^sup>2) = 0 \<longleftrightarrow> (\<forall>x\<in>set xs. x = (m::real))"
proof (induction xs)
  case Nil
  then show ?case by simp
next
  case (Cons x xs)
  have nn: "0 \<le> (\<Sum>x\<leftarrow>xs. (x - m)\<^sup>2)" by (rule sum_list_nonneg) auto
  have "(x - m)\<^sup>2 + (\<Sum>x\<leftarrow>xs. (x - m)\<^sup>2) = 0 \<longleftrightarrow> (x - m)\<^sup>2 = 0 \<and> (\<Sum>x\<leftarrow>xs. (x - m)\<^sup>2) = 0"
    using nn by (intro add_nonneg_eq_0_iff) auto
  with Cons show ?case by auto
qed

lemma sum_sq_nonneg: "0 \<le> (\<Sum>x\<leftarrow>xs. (x - (m::real))\<^sup>2)"
  by (rule sum_list_nonneg) auto




text \<open>A number half-way between two multiples of 1/100 may go to either: 7/8 to 0.87 and
  to 0.88.\<close>

lemma tie_rounds_both_ways: "rounds_to (7 / 8) (87 / 100) \<and> rounds_to (7 / 8) (88 / 100)"
  by (simp add: rounds_to_def)




section \<open>The wide table\<close>

lemma present_set: "set (present s) = {v. Num v \<in> set s}"
  by (induction s rule: present.induct) auto

lemma series_mean_nan: "series_mean s \<noteq> NaN \<longleftrightarrow> (\<exists>v. Num v \<in> set s)"
proof -
  have "present s \<noteq> [] \<longleftrightarrow> set (present s) \<noteq> {}" by simp
  then show ?thesis by (auto simp: series_mean_def Let_def present_set)
qed

lemma agg_nan: "agg kd k \<noteq> NaN \<longleftrightarrow> (\<exists>v. (k, Num v) \<in> set kd)"
  by (force simp: agg_def series_mean_nan)

lemma kept_set: "k \<in> set (kept kd) \<longleftrightarrow> agg kd k \<noteq> NaN"
  by (force simp: kept_def agg_nan)

lemma distinct_kept: "distinct (kept kd)"
  by (simp add: kept_def)

lemma pivot_index: "set (index (pivot_table kd)) = {d. \<exists>col. agg kd (d, col) \<noteq> NaN}"
  by (force simp: pivot_table_def kept_set)

lemma pivot_columns: "set (columns (pivot_table kd)) = {col. \<exists>d. agg kd (d, col) \<noteq> NaN}"
  by (force simp: pivot_table_def kept_set)

lemma pivot_cell: "cell (pivot_table kd) d col = agg kd (d, col)"
  by (simp add: pivot_table_def kept_set)

lemma pivot_distinct: "distinct (index (pivot_table kd))" "distinct (columns (pivot_table kd))"
  by (simp_all add: pivot_table_def)

lemma name_map_inj: "name_map a = Some n \<Longrightarrow> name_map b = Some n \<Longrightarrow> a = b"
  by (auto simp: name_map_def split: if_splits)

lemma indicator_name_of: "indicator r = Some ind \<Longrightarrow> indicator_name r = name_map ind"
  by (simp add: indicator_name_def)

lemma keyed_Cons:
  "keyed ind ((r, y) # df) =
      (if indicator r = Some ind
       then (case country r of None \<Rightarrow> []
             | Some cn \<Rightarrow> (case indicator_name r of None \<Rightarrow> [] | Some nm \<Rightarrow> [((date r, cn, nm), y)]))
       else []) @ keyed ind df"
  by (simp add: keyed_def)

lemma keyed_group:
  "map snd (filter (\<lambda>p. fst p = (d, cn, nm)) (keyed ind df))
     = map snd (filter (\<lambda>(r, y). indicator r = Some ind \<and> country r = Some cn
                                \<and> indicator_name r = Some nm \<and> date r = d) df)"
proof (induction df)
  case Nil
  show ?case by (simp add: keyed_def)
next
  case (Cons a df)
  obtain r y where a: "a = (r, y)" by (cases a)
  show ?case
    unfolding a keyed_Cons using Cons.IH
    by (cases "indicator r = Some ind"; cases "country r"; cases "indicator_name r") auto
qed

lemma agg_keyed:
  assumes "ind \<in> set codes"
  shows "agg (keyed ind df) (d, cn, nm) =
    (if name_map ind = Some nm then series_mean (matching codes df d (cn, nm)) else NaN)"
proof (cases "name_map ind = Some nm")
  case True
  have "filter (\<lambda>(r, y). indicator r = Some ind \<and> country r = Some cn
                    \<and> indicator_name r = Some nm \<and> date r = d) df
      = filter (\<lambda>(r, y). selected codes r \<and> date r = d \<and> country r = Some (fst (cn, nm))
                    \<and> indicator_name r = Some (snd (cn, nm))) df"
  proof (rule filter_cong [OF refl], clarify)
    fix r y
    show "(indicator r = Some ind \<and> country r = Some cn \<and> indicator_name r = Some nm \<and> date r = d)
      = (selected codes r \<and> date r = d \<and> country r = Some (fst (cn, nm))
          \<and> indicator_name r = Some (snd (cn, nm)))"
    proof
      assume "indicator r = Some ind \<and> country r = Some cn \<and> indicator_name r = Some nm \<and> date r = d"
      then show "selected codes r \<and> date r = d \<and> country r = Some (fst (cn, nm))
          \<and> indicator_name r = Some (snd (cn, nm))"
        using assms by (simp add: selected_def)
    next
      assume h: "selected codes r \<and> date r = d \<and> country r = Some (fst (cn, nm))
          \<and> indicator_name r = Some (snd (cn, nm))"
      then obtain ind' where i': "ind' \<in> set codes" "indicator r = Some ind'"
        by (auto simp: selected_def)
      from h i'(2) have "name_map ind' = Some nm" by (simp add: indicator_name_def)
      with True have "ind' = ind" by (rule name_map_inj [rotated])
      with h i' show "indicator r = Some ind \<and> country r = Some cn \<and> indicator_name r = Some nm \<and> date r = d"
        by simp
    qed
  qed
  then show ?thesis
    using True by (simp add: agg_def keyed_group matching_def)
next
  case False
  have "filter (\<lambda>(r, y). indicator r = Some ind \<and> country r = Some cn
                    \<and> indicator_name r = Some nm \<and> date r = d) df = []"
    using False by (auto simp: filter_empty_conv indicator_name_def)
  then show ?thesis
    using False by (simp add: agg_def keyed_group series_mean_def)
qed

lemma matching_named:
  assumes "series_mean (matching codes df d (cn, nm)) \<noteq> NaN"
  shows "\<exists>ind\<in>set codes. name_map ind = Some nm"
proof -
  from assms obtain v where "Num v \<in> set (matching codes df d (cn, nm))"
    by (auto simp: series_mean_nan)
  then obtain r where "selected codes r" "indicator_name r = Some nm"
    by (auto simp: matching_def)
  then show ?thesis by (auto simp: selected_def indicator_name_def)
qed

lemma set_union_index: "set (union_index a b) = set a \<union> set b"
  by (auto simp: union_index_def)

lemma distinct_union_index: "distinct a \<Longrightarrow> distinct b \<Longrightarrow> distinct (union_index a b)"
  by (auto simp: union_index_def)

lemma set_foldl_union: "set (foldl union_index acc xs) = set acc \<union> \<Union> (set ` set xs)"
  by (induction xs arbitrary: acc) (auto simp: set_union_index)

lemma distinct_foldl_union:
  "distinct acc \<Longrightarrow> (\<And>x. x \<in> set xs \<Longrightarrow> distinct x) \<Longrightarrow> distinct (foldl union_index acc xs)"
  by (induction xs arbitrary: acc) (auto simp: distinct_union_index)

lemma distinct_concat_map:
  assumes "distinct xs"
    and "\<And>x. x \<in> set xs \<Longrightarrow> distinct (f x)"
    and "\<And>x y. x \<in> set xs \<Longrightarrow> y \<in> set xs \<Longrightarrow> x \<noteq> y \<Longrightarrow> set (f x) \<inter> set (f y) = {}"
  shows "distinct (concat (map f xs))"
  using assms
proof (induction xs)
  case Nil
  then show ?case by simp
next
  case (Cons x xs)
  have "set (f x) \<inter> set (f y) = {}" if "y \<in> set xs" for y
    using Cons.prems(1) Cons.prems(3) [of x y] that by auto
  moreover have "distinct (concat (map f xs))"
    using Cons.prems by (intro Cons.IH) auto
  ultimately show ?case using Cons.prems(2) by auto
qed

lemma part_column_named:
  assumes "ind \<in> set codes" and "(cn, nm) \<in> set (columns (pivot_table (keyed ind df)))"
  shows "name_map ind = Some nm"
proof -
  from assms(2) obtain d where "agg (keyed ind df) (d, cn, nm) \<noteq> NaN"
    by (auto simp: pivot_columns)
  then show ?thesis
    by (simp add: agg_keyed [OF assms(1)] split: if_splits)
qed

text \<open>
  C7 (as amended). For a selection of distinct indicator codes, the wide table has one
  row for each year in which some row of the frame, of a selected indicator and with its
  country and indicator name present, has a present value, and no other row; it has one
  column for each pair (country, indicator name) of such a row with a present value, and
  no other column; and the cell of a year and a column is the mean of the present values
  of the matching rows, NaN (never 0) when no matching row has a present value.
\<close>

theorem wide_all_table:
  assumes "distinct codes" and "wide_all codes df = Some W"
  shows "distinct (index W)
    \<and> set (index W) = {d. \<exists>col v. Num v \<in> set (matching codes df d col)}
    \<and> distinct (columns W)
    \<and> set (columns W) = {col. \<exists>d v. Num v \<in> set (matching codes df d col)}
    \<and> (\<forall>d col. cell W d col = series_mean (matching codes df d col))
    \<and> (\<forall>d col. (\<forall>v. Num v \<notin> set (matching codes df d col)) \<longrightarrow> cell W d col = NaN)"
proof -
  let ?P = "\<lambda>ind. pivot_table (keyed ind df)"
  have W: "W = concat_columns (map ?P codes)"
    using assms(2) by (simp add: wide_all_def Let_def split: if_splits)
  have agg_iff: "(\<exists>ind\<in>set codes. agg (keyed ind df) (d, cn, nm) \<noteq> NaN)
      \<longleftrightarrow> series_mean (matching codes df d (cn, nm)) \<noteq> NaN" for d cn nm
  proof
    assume "\<exists>ind\<in>set codes. agg (keyed ind df) (d, cn, nm) \<noteq> NaN"
    then show "series_mean (matching codes df d (cn, nm)) \<noteq> NaN"
      by (auto simp: agg_keyed split: if_splits)
  next
    assume h: "series_mean (matching codes df d (cn, nm)) \<noteq> NaN"
    then obtain ind where "ind \<in> set codes" "name_map ind = Some nm"
      using matching_named by blast
    with h show "\<exists>ind\<in>set codes. agg (keyed ind df) (d, cn, nm) \<noteq> NaN"
      by (auto simp: agg_keyed)
  qed
  have d1: "distinct (index W)"
    unfolding W by (auto simp: concat_columns_def intro!: distinct_foldl_union pivot_distinct)
  have s1: "set (index W) = {d. \<exists>col v. Num v \<in> set (matching codes df d col)}"
  proof -
    have "set (index W) = {d. \<exists>ind\<in>set codes. \<exists>col. agg (keyed ind df) (d, col) \<noteq> NaN}"
      unfolding W by (auto simp: concat_columns_def set_foldl_union pivot_index)
    also have "\<dots> = {d. \<exists>cn nm. series_mean (matching codes df d (cn, nm)) \<noteq> NaN}"
      using agg_iff by (auto, blast+)
    also have "\<dots> = {d. \<exists>col v. Num v \<in> set (matching codes df d col)}"
      by (auto simp: series_mean_nan)
    finally show ?thesis .
  qed
  have d2: "distinct (columns W)"
  proof -
    have "distinct (concat (map (\<lambda>ind. columns (?P ind)) codes))"
    proof (rule distinct_concat_map [OF assms(1)])
      fix x assume "x \<in> set codes"
      show "distinct (columns (?P x))" by (rule pivot_distinct)
    next
      fix x y assume xy: "x \<in> set codes" "y \<in> set codes" "x \<noteq> y"
      show "set (columns (?P x)) \<inter> set (columns (?P y)) = {}"
      proof (rule ccontr)
        assume "set (columns (?P x)) \<inter> set (columns (?P y)) \<noteq> {}"
        then obtain cn nm where "(cn, nm) \<in> set (columns (?P x))" "(cn, nm) \<in> set (columns (?P y))"
          by auto
        then have "name_map x = Some nm" "name_map y = Some nm"
          using xy part_column_named by blast+
        with xy(3) show False using name_map_inj by blast
      qed
    qed
    then show ?thesis unfolding W by (simp add: concat_columns_def comp_def)
  qed
  have s2: "set (columns W) = {col. \<exists>d v. Num v \<in> set (matching codes df d col)}"
  proof -
    have "set (columns W) = {col. \<exists>ind\<in>set codes. \<exists>d. agg (keyed ind df) (d, col) \<noteq> NaN}"
      unfolding W by (auto simp: concat_columns_def pivot_columns)
    also have "\<dots> = {col. \<exists>d. series_mean (matching codes df d col) \<noteq> NaN}"
      using agg_iff by (auto, blast+)
    also have "\<dots> = {col. \<exists>d v. Num v \<in> set (matching codes df d col)}"
      by (auto simp: series_mean_nan)
    finally show ?thesis .
  qed
  have c: "cell W d col = series_mean (matching codes df d col)" for d col
  proof -
    obtain cn nm where col: "col = (cn, nm)" by (cases col)
    show ?thesis
    proof (cases "find (\<lambda>p. col \<in> set (columns p)) (map ?P codes)")
      case None
      then have no: "\<And>ind. ind \<in> set codes \<Longrightarrow> col \<notin> set (columns (?P ind))"
        by (auto simp: find_None_iff)
      have "series_mean (matching codes df d col) = NaN"
      proof (rule ccontr)
        assume "series_mean (matching codes df d col) \<noteq> NaN"
        then obtain ind where "ind \<in> set codes" "agg (keyed ind df) (d, cn, nm) \<noteq> NaN"
          using agg_iff [of d cn nm] col by auto
        then have "col \<in> set (columns (?P ind))" by (auto simp: pivot_columns col)
        with no \<open>ind \<in> set codes\<close> show False by blast
      qed
      with None show ?thesis unfolding W by (simp add: concat_columns_def)
    next
      case (Some p)
      then have "p \<in> set (map ?P codes)" "col \<in> set (columns p)"
        by (auto simp: find_Some_iff)
      then obtain ind where ind: "ind \<in> set codes" "p = ?P ind" by auto
      have nm: "name_map ind = Some nm"
        using part_column_named [OF ind(1)] \<open>col \<in> set (columns p)\<close> ind(2) col by blast
      have a: "agg (keyed ind df) (d, cn, nm) = series_mean (matching codes df d (cn, nm))"
        by (simp add: agg_keyed [OF ind(1)] nm)
      have "cell W d col = (if d \<in> set (index p) then cell p d col else NaN)"
        unfolding W using Some by (simp add: concat_columns_def)
      also have "\<dots> = agg (keyed ind df) (d, col)"
        by (auto simp: ind(2) pivot_cell pivot_index col)
      finally show ?thesis using a col by simp
    qed
  qed
  have n: "cell W d col = NaN" if "\<forall>v. Num v \<notin> set (matching codes df d col)" for d col
    using that series_mean_nan [of "matching codes df d col"] by (simp add: c)
  from d1 s1 d2 s2 c n show ?thesis by blast
qed

theorem wide_all_table_witness:
  "cell (the (wide_all [''NY.GDP.MKTP.KD.ZG''] (with_ycol False [usa_gdp 2000 (Num 1), usa_gdp 2001 NaN])))
      2001 (''United States'', ''GDP growth'') = NaN
   \<and> set (index (the (wide_all [''NY.GDP.MKTP.KD.ZG''] (with_ycol False [usa_gdp 2000 (Num 1), usa_gdp 2001 NaN]))))
      = {d. \<exists>col v. Num v \<in> set (matching [''NY.GDP.MKTP.KD.ZG'']
            (with_ycol False [usa_gdp 2000 (Num 1), usa_gdp 2001 NaN]) d col)}"
proof -
  let ?codes = "[''NY.GDP.MKTP.KD.ZG'']"
  let ?df = "with_ycol False [usa_gdp 2000 (Num 1), usa_gdp 2001 NaN]"
  have dist: "distinct ?codes" by simp
  have some: "wide_all ?codes ?df = Some (the (wide_all ?codes ?df))"
    by (simp add: wide_all_def)
  have m: "matching ?codes ?df 2001 (''United States'', ''GDP growth'') = [NaN]"
    by (simp add: matching_def with_ycol_def usa_gdp_def selected_def indicator_name_def name_map_def)
  from wide_all_table [OF dist some] m show ?thesis
    by (simp add: series_mean_def)
qed

text \<open>
  The claim as stated fails: a year of the frame all of whose values are absent has no row
  in the wide table. Here the frame has the years 2000 and 2001, and the table has the one
  row 2000.
\<close>

theorem year_without_values_has_no_row:
  "map date [usa_gdp 2000 (Num 1), usa_gdp 2001 NaN] = [2000, 2001]
   \<and> map_option index (wide_all [''NY.GDP.MKTP.KD.ZG''] (with_ycol False [usa_gdp 2000 (Num 1), usa_gdp 2001 NaN]))
      = Some [2000]"
proof -
  have k: "keyed ''NY.GDP.MKTP.KD.ZG'' (with_ycol False [usa_gdp 2000 (Num 1), usa_gdp 2001 NaN])
      = [((2000, ''United States'', ''GDP growth''), Num 1),
         ((2001, ''United States'', ''GDP growth''), NaN)]"
    by (simp add: with_ycol_def usa_gdp_def keyed_def indicator_name_def name_map_def)
  have kp: "kept [((2000::int, ''United States'', ''GDP growth''), Num 1),
                  ((2001, ''United States'', ''GDP growth''), NaN)]
      = [(2000, ''United States'', ''GDP growth'')]"
    by (simp add: kept_def agg_def series_mean_def)
  have years: "map date [usa_gdp 2000 (Num 1), usa_gdp 2001 NaN] = [2000, 2001]"
    by (simp add: usa_gdp_def)
  have rows: "map_option index (wide_all [''NY.GDP.MKTP.KD.ZG'']
      (with_ycol False [usa_gdp 2000 (Num 1), usa_gdp 2001 NaN])) = Some [2000]"
    by (simp add: wide_all_def k concat_columns_def pivot_table_def kp union_index_def)
  from years rows show ?thesis by (rule conjI)
qed

end
